theory Spec2Isabelle
  imports Complex_Main "HOL-Library.Sublist" "HOL-Library.Multiset"
begin

section \<open>JavaScript primitives used by the handlers\<close>

text \<open>
  A string is a list of characters, and a character is a code point from 0 to 255 (the
  Latin-1 range of Unicode: \<open>CHR 0xC9\<close> is the capital E with acute accent); strings
  with other characters are outside the model. Numbers that the handlers compute with are
  integers (\<open>parseInt\<close> results, array lengths and their products); they are modelled by
  \<open>int\<close>, which agrees with JavaScript's Number on the safe integers, those of absolute
  value up to \<open>2 ^ 53 - 1\<close>. Beyond them JavaScript rounds, and from 309 decimal digits
  on \<open>parseInt\<close> gives \<open>Infinity\<close>: the statements about numbers are made for safe
  integers. \<open>NaN\<close> is \<open>None\<close>.
\<close>

definition isSafeInteger :: "int \<Rightarrow> bool" where
  \<comment> \<open>\<open>Number.isSafeInteger\<close>\<close>
  "isSafeInteger n = (\<bar>n\<bar> \<le> 2 ^ 53 - 1)"

definition isUpperCase :: "char \<Rightarrow> bool" where
  \<comment> \<open>the capital letters of Latin-1: A to Z, and U+00C0 to U+00DE without the
      multiplication sign U+00D7\<close>
  "isUpperCase c =
     (let n = (of_char c :: nat)
      in (65 \<le> n \<and> n \<le> 90) \<or> (192 \<le> n \<and> n \<le> 222 \<and> n \<noteq> 215))"

definition toLowerCase :: "string \<Rightarrow> string" where
  \<comment> \<open>\<open>String.prototype.toLowerCase\<close>: in Latin-1 the small letter of a capital letter
      lies 32 code points above it, and every other character is left as it is.\<close>
  "toLowerCase s =
     map (\<lambda>c. if isUpperCase c then char_of ((of_char c :: nat) + 32) else c) s"

fun includes_js :: "string \<Rightarrow> string \<Rightarrow> bool" where
  \<comment> \<open>\<open>hay.includes(needle)\<close>: the needle occurs at some position of the hay.\<close>
  "includes_js [] needle = (needle = [])"
| "includes_js (c # cs) needle = (prefix needle (c # cs) \<or> includes_js cs needle)"

definition startsWith :: "string \<Rightarrow> string \<Rightarrow> bool" where
  "startsWith s p = prefix p s"

definition isWhiteSpace :: "char \<Rightarrow> bool" where
  \<comment> \<open>the white space and line terminators that \<open>parseInt\<close> skips (one-byte ones)\<close>
  "isWhiteSpace c = ((of_char c :: nat) \<in> {9, 10, 11, 12, 13, 32, 160})"

definition digitValue :: "char \<Rightarrow> nat option" where
  "digitValue c =
     (let n = (of_char c :: nat) in
      if 48 \<le> n \<and> n \<le> 57 then Some (n - 48)
      else if 97 \<le> n \<and> n \<le> 122 then Some (n - 87)
      else if 65 \<le> n \<and> n \<le> 90 then Some (n - 55)
      else None)"

definition isRadixDigit :: "nat \<Rightarrow> char \<Rightarrow> bool" where
  "isRadixDigit R c = (case digitValue c of None \<Rightarrow> False | Some d \<Rightarrow> d < R)"

definition radixValue :: "nat \<Rightarrow> string \<Rightarrow> nat" where
  "radixValue R Z =
     foldl (\<lambda>acc c. acc * R + (case digitValue c of None \<Rightarrow> 0 | Some d \<Rightarrow> d)) 0 Z"

definition parseInt :: "string option \<Rightarrow> int option" where
  \<comment> \<open>\<open>parseInt(v)\<close> with no radix argument; a missing query parameter is \<open>undefined\<close>,
      which is first converted to the string "undefined".\<close>
  "parseInt v =
     (let inputString = (case v of None \<Rightarrow> ''undefined'' | Some s \<Rightarrow> s);
          S = dropWhile isWhiteSpace inputString;
          sign = (if S \<noteq> [] \<and> hd S = CHR ''-'' then - 1 else (1::int));
          S1 = (if S \<noteq> [] \<and> (hd S = CHR ''+'' \<or> hd S = CHR ''-'') then tl S else S);
          hex = (prefix ''0x'' S1 \<or> prefix ''0X'' S1);
          R = (if hex then 16 else 10);
          S2 = (if hex then drop 2 S1 else S1);
          Z = takeWhile (isRadixDigit R) S2
      in if Z = [] then None else Some (sign * int (radixValue R Z)))"

definition or_default :: "int option \<Rightarrow> int \<Rightarrow> int" where
  \<comment> \<open>\<open>n || d\<close> for a Number \<open>n\<close>: \<open>NaN\<close> and zero are falsy.\<close>
  "or_default n d = (case n of None \<Rightarrow> d | Some k \<Rightarrow> if k = 0 then d else k)"


definition slice :: "'a list \<Rightarrow> int \<Rightarrow> int \<Rightarrow> 'a list" where
  \<comment> \<open>\<open>Array.prototype.slice(start, end)\<close>: negative bounds count from the end of the
      array, both bounds are clamped to it, and an empty range gives the empty array.\<close>
  "slice xs start end =
     (let len = int (length xs);
          k = (if start < 0 then max (len + start) 0 else min start len);
          final = (if end < 0 then max (len + end) 0 else min end len)
      in take (nat (final - k)) (drop (nat k) xs))"

definition sort_desc :: "nat list \<Rightarrow> nat list" where
  \<comment> \<open>\<open>results.sort((a, b) => b - a)\<close>\<close>
  "sort_desc xs = rev (sort xs)"

definition Math_ceil_div :: "nat \<Rightarrow> int \<Rightarrow> int" where
  \<comment> \<open>\<open>Math.ceil(totalMessages / pageSize)\<close>, for a divisor that is not zero\<close>
  "Math_ceil_div n d = \<lceil>real n / real_of_int d\<rceil>"

section \<open>Messages, mailboxes and the collaborators\<close>

text \<open>
  The handlers talk to three collaborators that are not part of the repository: the IMAP
  client (package \<open>imap\<close>) with the mail server behind it, the mail parser
  (\<open>simpleParser\<close> of package \<open>mailparser\<close>) and the outbound transporter
  (\<open>nodemailer\<close>). They are modelled by the state of the mail server and by parameters
  of the world the handlers run in. A date is represented by its rendering as a string.
\<close>

type_synonym js_date = string

definition Seen :: string where
  \<comment> \<open>the JavaScript literal "\\Seen": a backslash and the word Seen\<close>
  "Seen = CHR 0x5C # ''Seen''"

definition Deleted :: string where
  "Deleted = CHR 0x5C # ''Deleted''"

record parsed_mail =
  mail_from :: "string option"
  mail_to :: "string option"
  mail_subject :: "string option"
  mail_date :: "js_date option"
  mail_text :: "string option"
  mail_textAsHtml :: "string option"
  mail_messageId :: "string option"

text \<open>
  \<open>parsed_mail\<close> is what \<open>simpleParser\<close> delivers: \<open>mail_from\<close> stands for
  \<open>parsed.from?.text\<close> and \<open>mail_to\<close> for \<open>parsed.to?.text\<close>; a header that the
  message does not carry is \<open>undefined\<close>, here \<open>None\<close>.
\<close>

record message =
  uid :: nat
  flags :: "string list"
  body :: string

record fetch_options =
  bodies :: string
  struct :: bool
  markSeen :: bool
  envelope :: bool

definition fetchOptions :: fetch_options where
  "fetchOptions = \<lparr>bodies = [], struct = True, markSeen = False, envelope = True\<rparr>"

record reply_mail =
  m_from :: string
  m_to :: string
  m_subject :: string
  m_html :: string
  m_inReplyTo :: "string option"

datatype imap_call =
    GetBoxes
  | OpenBox string bool
  | CloseBox bool
  | Search
  | Fetch "nat list" fetch_options
  | SeqFetch nat fetch_options
  | SeqAddFlags nat string
  | SeqDelFlags nat string
  | Expunge
  | Append string string

datatype imap_error = Rejected | NoSuchMailbox | NoMailboxSelected | NoSuchMessage

datatype conn_state = Disconnected | Connected | Authenticated

fun state_name :: "conn_state \<Rightarrow> string" where
  \<comment> \<open>the values of the client's \<open>state\<close> property\<close>
  "state_name Disconnected = ''disconnected''"
| "state_name Connected = ''connected''"
| "state_name Authenticated = ''authenticated''"

text \<open>
  The state of the client is one of these three. \<open>getImap\<close> compares it with "open",
  which it never is, so that \<open>getImap\<close> closes no mailbox.
\<close>

record world =
  imap_state :: conn_state
  mailboxes :: "(string \<times> message list) list"
  selected :: "(string \<times> bool) option"
  children :: "(string \<times> string list) list"
  rejects :: "imap_call \<Rightarrow> bool"
  delivery :: "(nat \<times> message) list \<Rightarrow> (nat \<times> message) list"
  simpleParser :: "string \<Rightarrow> parsed_mail"
  smtp_rejects :: "reply_mail \<Rightarrow> bool"
  clock :: js_date
  selectedFolder :: string

text \<open>
  \<^item> \<open>mailboxes\<close>: the top-level mailboxes of the server with their messages in
    sequence order (the message at position \<open>i\<close> has sequence number \<open>i + 1\<close>), listed in
    the order in which \<open>Object.keys\<close> enumerates the object that \<open>getBoxes\<close> delivers;
  \<^item> \<open>children\<close>: for a top-level mailbox, the names of the mailboxes nested below it.
    In the object that \<open>getBoxes\<close> delivers they are not keys: they sit in the
    \<open>children\<close> property of the entry of the top-level mailbox;
  \<^item> \<open>selected\<close>: the mailbox that is open, and whether it was opened read-only;
  \<^item> \<open>rejects\<close>: the calls that the server answers with an error (a lost connection, a
    refused command, for example a flag change in a mailbox opened read-only);
  \<^item> \<open>delivery\<close>: the order in which the server sends the messages of one fetch;
  \<^item> \<open>smtp_rejects\<close>: the mails for which \<open>sendMail\<close> reports an error;
  \<^item> \<open>clock\<close>: the value of \<open>new Date()\<close>;
  \<^item> \<open>selectedFolder\<close>: the module variable of that name. Its initial value is "INBOX".
\<close>

definition live_folders :: "world \<Rightarrow> string list" where
  \<comment> \<open>the names of all mailboxes of the server, nested ones included\<close>
  "live_folders w = map fst (mailboxes w) @ concat (map snd (children w))"

definition box_messages :: "world \<Rightarrow> string \<Rightarrow> message list" where
  "box_messages w name = (case map_of (mailboxes w) name of None \<Rightarrow> [] | Some ms \<Rightarrow> ms)"

fun replace_box :: "string \<Rightarrow> message list \<Rightarrow> (string \<times> message list) list \<Rightarrow> (string \<times> message list) list" where
  "replace_box name ms [] = []"
| "replace_box name ms ((k, old) # rest) =
     (if k = name then (k, ms) # rest else (k, old) # replace_box name ms rest)"

definition set_box :: "string \<Rightarrow> message list \<Rightarrow> world \<Rightarrow> world" where
  \<comment> \<open>the world in which the mailbox of that name holds the given messages\<close>
  "set_box name ms w = w\<lparr>mailboxes := replace_box name ms (mailboxes w)\<rparr>"

definition add_flag :: "string \<Rightarrow> message \<Rightarrow> message" where
  "add_flag f m = (if f \<in> set (flags m) then m else m\<lparr>flags := flags m @ [f]\<rparr>)"

definition del_flag :: "string \<Rightarrow> message \<Rightarrow> message" where
  "del_flag f m = m\<lparr>flags := filter (\<lambda>g. g \<noteq> f) (flags m)\<rparr>"

definition numbered :: "message list \<Rightarrow> (nat \<times> message) list" where
  \<comment> \<open>the messages of a mailbox with their sequence numbers\<close>
  "numbered ms = zip [1 ..< Suc (length ms)] ms"

definition imap_getBoxes :: "world \<Rightarrow> imap_error + string list" where
  "imap_getBoxes w = (if rejects w GetBoxes then Inl Rejected else Inr (map fst (mailboxes w)))"

definition imap_openBox :: "string \<Rightarrow> bool \<Rightarrow> world \<Rightarrow> (imap_error + unit) \<times> world" where
  "imap_openBox name openReadOnly w =
     (if rejects w (OpenBox name openReadOnly) then (Inl Rejected, w)
      else if name \<notin> set (map fst (mailboxes w)) then (Inl NoSuchMailbox, w)
      else (Inr (), w\<lparr>selected := Some (name, openReadOnly)\<rparr>))"

definition expunged :: "message list \<Rightarrow> message list" where
  "expunged ms = filter (\<lambda>m. Deleted \<notin> set (flags m)) ms"

definition imap_closeBox :: "bool \<Rightarrow> world \<Rightarrow> world" where
  "imap_closeBox autoExpunge w =
     (case selected w of
        None \<Rightarrow> w
      | Some (name, readOnly) \<Rightarrow>
          (if autoExpunge \<and> \<not> readOnly then set_box name (expunged (box_messages w name)) w
           else w)\<lparr>selected := None\<rparr>)"

definition imap_search :: "world \<Rightarrow> imap_error + nat list" where
  \<comment> \<open>\<open>imap.search([], ...)\<close>: the UIDs of all messages of the open mailbox\<close>
  "imap_search w =
     (if rejects w Search then Inl Rejected
      else case selected w of
             None \<Rightarrow> Inl NoMailboxSelected
           | Some (name, readOnly) \<Rightarrow> Inr (map uid (box_messages w name)))"

datatype fetch_outcome = Thrown | ErrorEvent | Delivered "(nat \<times> message) list"

text \<open>
  A fetch has three outcomes. The client throws at once when it is given an empty list of
  identifiers ("Nothing to fetch") or when no mailbox is open; a fetch that the server
  refuses ends with an \<open>error\<close> event on the fetch object; otherwise every message of the
  open mailbox whose identifier was asked for is delivered once, with its sequence number,
  in the order the server chooses. Only a fetch with \<open>markSeen\<close> in a mailbox that is
  open read-write sets the seen flag of the messages fetched.
\<close>

definition mark_fetched :: "fetch_options \<Rightarrow> bool \<Rightarrow> (message \<Rightarrow> bool) \<Rightarrow> message list \<Rightarrow> message list" where
  "mark_fetched opts readOnly hit ms =
     (if markSeen opts \<and> \<not> readOnly then map (\<lambda>m. if hit m then add_flag Seen m else m) ms
      else ms)"

definition requested_messages :: "nat list \<Rightarrow> message list \<Rightarrow> (nat \<times> message) list" where
  \<comment> \<open>the messages of a mailbox whose UID is among the given ones, with their sequence numbers\<close>
  "requested_messages uids ms = filter (\<lambda>(n, m). uid m \<in> set uids) (numbered ms)"

definition imap_fetch :: "nat list \<Rightarrow> fetch_options \<Rightarrow> world \<Rightarrow> fetch_outcome \<times> world" where
  "imap_fetch uids opts w =
     (if uids = [] then (Thrown, w)
      else case selected w of
             None \<Rightarrow> (Thrown, w)
           | Some (name, readOnly) \<Rightarrow>
               if rejects w (Fetch uids opts) then (ErrorEvent, w)
               else
                 let ms = mark_fetched opts readOnly (\<lambda>m. uid m \<in> set uids) (box_messages w name)
                 in (Delivered (delivery w (requested_messages uids ms)), set_box name ms w))"

definition imap_seq_fetch :: "nat \<Rightarrow> fetch_options \<Rightarrow> world \<Rightarrow> fetch_outcome \<times> world" where
  "imap_seq_fetch seqno opts w =
     (case selected w of
        None \<Rightarrow> (Thrown, w)
      | Some (name, readOnly) \<Rightarrow>
          if rejects w (SeqFetch seqno opts) then (ErrorEvent, w)
          else
            let old = box_messages w name;
                ms = (if markSeen opts \<and> \<not> readOnly \<and> 1 \<le> seqno \<and> seqno \<le> length old
                      then old[seqno - 1 := add_flag Seen (old ! (seqno - 1))] else old)
            in (Delivered (delivery w (filter (\<lambda>(n, m). n = seqno) (numbered ms))),
                set_box name ms w))"

definition store_flag ::
  "imap_call \<Rightarrow> (message \<Rightarrow> message) \<Rightarrow> nat \<Rightarrow> world \<Rightarrow> (imap_error + unit) \<times> world" where
  \<comment> \<open>a flag change on the message with the given sequence number of the open mailbox\<close>
  "store_flag call change seqno w =
     (if rejects w call then (Inl Rejected, w)
      else case selected w of
             None \<Rightarrow> (Inl NoMailboxSelected, w)
           | Some (name, readOnly) \<Rightarrow>
               let ms = box_messages w name
               in if seqno = 0 \<or> length ms < seqno then (Inl NoSuchMessage, w)
                  else (Inr (), set_box name (ms[seqno - 1 := change (ms ! (seqno - 1))]) w))"

definition imap_seq_addFlags :: "nat \<Rightarrow> string \<Rightarrow> world \<Rightarrow> (imap_error + unit) \<times> world" where
  "imap_seq_addFlags seqno flag w = store_flag (SeqAddFlags seqno flag) (add_flag flag) seqno w"

definition imap_seq_delFlags :: "nat \<Rightarrow> string \<Rightarrow> world \<Rightarrow> (imap_error + unit) \<times> world" where
  "imap_seq_delFlags seqno flag w = store_flag (SeqDelFlags seqno flag) (del_flag flag) seqno w"

definition imap_expunge :: "world \<Rightarrow> (imap_error + unit) \<times> world" where
  "imap_expunge w =
     (if rejects w Expunge then (Inl Rejected, w)
      else case selected w of
             None \<Rightarrow> (Inl NoMailboxSelected, w)
           | Some (name, readOnly) \<Rightarrow> (Inr (), set_box name (expunged (box_messages w name)) w))"

definition next_uid :: "message list \<Rightarrow> nat" where
  "next_uid ms = Suc (fold max (map uid ms) 0)"

definition imap_append :: "string \<Rightarrow> string \<Rightarrow> world \<Rightarrow> (imap_error + unit) \<times> world" where
  "imap_append raw mailbox w =
     (if rejects w (Append raw mailbox) then (Inl Rejected, w)
      else if mailbox \<notin> set (map fst (mailboxes w)) then (Inl NoSuchMailbox, w)
      else let ms = box_messages w mailbox
           in (Inr (), set_box mailbox (ms @ [\<lparr>uid = next_uid ms, flags = [], body = raw\<rparr>]) w))"

section \<open>The request handlers\<close>

text \<open>
  A handler is a function from the request and the world to the events it causes, in the
  order of the program, and the world it leaves. The events are the calls to the IMAP
  client and to the transporter, the errors written with \<open>console.error\<close>, the responses
  written to \<open>res\<close> (status and JSON body) and an exception that leaves a callback. The
  handlers run behind the authentication middleware, which leaves a live connection.

  The callbacks of one request run in their order with no other request in between. A
  query parameter is a string or is missing; a message identifier is a sequence number
  from 1 on (for the number 0 the client raises, which the model does not follow). What
  \<open>console.log\<close> prints is not recorded. A response written after the first one is
  recorded as the write it is: the client has received the first one, and what the
  framework does on the second write is not followed. An exception raised inside a
  callback or a listener is not caught by the \<open>try\<close> of the handler, which has
  returned by then; it is the event \<open>Uncaught\<close>, after which the callback does nothing
  more. What the library that called the callback does with the exception is not followed.
\<close>

record email =
  email_from :: string
  email_subject :: string
  email_date :: js_date
  email_text :: string
  email_html :: string
  email_to :: string
  email_id :: nat
  email_seen :: bool

record page_result =
  emails :: "email list"
  page :: int
  pageSize :: int
  totalPages :: int
  totalMessages :: nat

datatype json_body = Message string | Page page_result

datatype event =
    Imap imap_call
  | SendMail reply_mail
  | LogError
  | Respond nat json_body
  | Uncaught

definition getImap :: "world \<Rightarrow> event list \<times> world" where
  "getImap w =
     (if state_name (imap_state w) = ''open''
      then ([Imap (CloseBox True)], imap_closeBox True w)
      else ([], w))"

definition or_NA :: "string option \<Rightarrow> string" where
  \<comment> \<open>\<open>v || "N/A"\<close> for a string \<open>v\<close> that may be undefined: the empty string is falsy\<close>
  "or_NA v = (case v of None \<Rightarrow> ''N/A'' | Some s \<Rightarrow> if s = [] then ''N/A'' else s)"

definition template :: "string option \<Rightarrow> string" where
  \<comment> \<open>a value inside a template literal: undefined is rendered as "undefined"\<close>
  "template v = (case v of None \<Rightarrow> ''undefined'' | Some s \<Rightarrow> s)"

subsection \<open>POST /send-reply\<close>

definition reply_subject :: "string \<Rightarrow> string" where
  "reply_subject subject = (if startsWith subject ''Re: '' then subject else ''Re: '' @ subject)"

definition reply_text :: "string \<Rightarrow> parsed_mail \<Rightarrow> string \<Rightarrow> string" where
  "reply_text txt email sender =
     txt @ ''<br/><br/>On '' @ template (mail_date email) @ '', '' @ sender
       @ '' wrote:<br/><br/>'' @ template (mail_textAsHtml email)"

definition CRLF :: string where
  "CRLF = [CHR 0x0D, CHR 0x0A]"

definition raw_message :: "string \<Rightarrow> string \<Rightarrow> string \<Rightarrow> string \<Rightarrow> string" where
  "raw_message sender recipient subject replyText =
     ''From: '' @ sender @ CRLF @
     ''To: '' @ recipient @ CRLF @
     ''Subject: '' @ subject @ CRLF @
     ''Content-Type: text/html; charset=utf-8'' @ CRLF @ CRLF @
     replyText @ CRLF"

definition after_send :: "parsed_mail \<Rightarrow> string \<Rightarrow> string \<Rightarrow> string \<Rightarrow> world \<Rightarrow> event list \<times> world" where
  \<comment> \<open>the rest of the \<open>sendMail\<close> callback once the success response is written\<close>
  "after_send email sender subject replyText w =
     (case mail_to email of
        None \<Rightarrow> ([Uncaught], w)
      | Some recipient \<Rightarrow>
          let rawMessage = raw_message sender recipient subject replyText
          in (case imap_append rawMessage ''Sent'' w of
                (Inl err, w') \<Rightarrow> ([Imap (Append rawMessage ''Sent''), LogError], w')
              | (Inr ok, w') \<Rightarrow> ([Imap (Append rawMessage ''Sent'')], w')))"

definition on_body :: "string \<Rightarrow> string \<Rightarrow> message \<Rightarrow> world \<Rightarrow> event list \<times> world" where
  \<comment> \<open>the \<open>body\<close> listener of the fetched message\<close>
  "on_body txt user msg w =
     (let email = simpleParser w (body msg)
      in case mail_from email of
           None \<Rightarrow> ([Uncaught], w)
         | Some sender \<Rightarrow>
             let replyText = reply_text txt email sender
             in (case mail_subject email of
                   None \<Rightarrow> ([Uncaught], w)
                 | Some original \<Rightarrow>
                     let subject = reply_subject original;
                         replyEmail = \<lparr>m_from = user @ ''@localhost'', m_to = sender,
                                       m_subject = subject, m_html = replyText,
                                       m_inReplyTo = mail_messageId email\<rparr>
                     in if smtp_rejects w replyEmail
                        then ([SendMail replyEmail, LogError,
                               Respond 500 (Message ''Error sending reply'')], w)
                        else let (evs, w') = after_send email sender subject replyText w
                             in ([SendMail replyEmail, Respond 200 (Message ''Reply sent'')] @ evs,
                                 w')))"

fun on_messages :: "string \<Rightarrow> string \<Rightarrow> (nat \<times> message) list \<Rightarrow> world \<Rightarrow> event list \<times> world" where
  "on_messages txt user [] w = ([], w)"
| "on_messages txt user (sm # rest) w =
     (let (evs, w') = on_body txt user (snd sm) w;
          (evs', w'') = on_messages txt user rest w'
      in (evs @ evs', w''))"

definition send_reply :: "string \<Rightarrow> nat \<Rightarrow> string \<Rightarrow> world \<Rightarrow> event list \<times> world" where
  "send_reply txt ident user w0 =
     (let (ev, w) = getImap w0
      in case imap_openBox (selectedFolder w) False w of
           (Inl err, w1) \<Rightarrow>
             (ev @ [Imap (OpenBox (selectedFolder w) False), LogError,
                    Respond 500 (Message ''Error opening mailbox'')], w1)
         | (Inr box, w1) \<Rightarrow>
             (case imap_seq_fetch ident fetchOptions w1 of
                (Thrown, w2) \<Rightarrow>
                  (ev @ [Imap (OpenBox (selectedFolder w) False),
                         Imap (SeqFetch ident fetchOptions), Uncaught], w2)
              | (ErrorEvent, w2) \<Rightarrow>
                  (ev @ [Imap (OpenBox (selectedFolder w) False),
                         Imap (SeqFetch ident fetchOptions), Uncaught], w2)
              | (Delivered msgs, w2) \<Rightarrow>
                  let (evs, w3) = on_messages txt user msgs w2
                  in (ev @ [Imap (OpenBox (selectedFolder w) False),
                            Imap (SeqFetch ident fetchOptions)] @ evs, w3)))"

subsection \<open>POST /mark-as-unread and POST /mark-as-read\<close>

definition mark_as_unread :: "nat \<Rightarrow> world \<Rightarrow> event list \<times> world" where
  "mark_as_unread ident w0 =
     (let (ev, w) = getImap w0
      in case imap_openBox (selectedFolder w) True w of
           (Inl err, w1) \<Rightarrow>
             (ev @ [Imap (OpenBox (selectedFolder w) True), LogError,
                    Respond 500 (Message ''Error opening mailbox'')], w1)
         | (Inr box, w1) \<Rightarrow>
             (case imap_seq_delFlags ident Seen w1 of
                (Inl err, w2) \<Rightarrow>
                  (ev @ [Imap (OpenBox (selectedFolder w) True), Imap (SeqDelFlags ident Seen),
                         LogError, Respond 500 (Message ''Error marking email as unread'')], w2)
              | (Inr ok, w2) \<Rightarrow>
                  (ev @ [Imap (OpenBox (selectedFolder w) True), Imap (SeqDelFlags ident Seen),
                         Respond 200 (Message ''Email marked as unread'')], w2)))"

definition mark_as_read :: "nat \<Rightarrow> world \<Rightarrow> event list \<times> world" where
  "mark_as_read ident w0 =
     (let (ev, w) = getImap w0
      in case imap_openBox (selectedFolder w) True w of
           (Inl err, w1) \<Rightarrow>
             (ev @ [Imap (OpenBox (selectedFolder w) True), LogError,
                    Respond 500 (Message ''Error opening mailbox'')], w1)
         | (Inr box, w1) \<Rightarrow>
             (case imap_seq_addFlags ident Seen w1 of
                (Inl err, w2) \<Rightarrow>
                  (ev @ [Imap (OpenBox (selectedFolder w) True), Imap (SeqAddFlags ident Seen),
                         LogError, Respond 500 (Message ''Error marking email as seen'')], w2)
              | (Inr ok, w2) \<Rightarrow>
                  (ev @ [Imap (OpenBox (selectedFolder w) True), Imap (SeqAddFlags ident Seen),
                         Respond 200 (Message ''Email marked as seen'')], w2)))"

subsection \<open>POST /delete-email\<close>

definition delete_email :: "nat \<Rightarrow> world \<Rightarrow> event list \<times> world" where
  "delete_email ident w0 =
     (let (ev, w) = getImap w0
      in case imap_openBox ''Trash'' False w of
           (Inl err, w1) \<Rightarrow>
             (ev @ [Imap (OpenBox ''Trash'' False), LogError,
                    Respond 500 (Message ''Error opening mailbox'')], w1)
         | (Inr box, w1) \<Rightarrow>
             (case imap_seq_addFlags ident Deleted w1 of
                (Inl err, w2) \<Rightarrow>
                  (ev @ [Imap (OpenBox ''Trash'' False), Imap (SeqAddFlags ident Deleted),
                         LogError, Respond 500 (Message ''Error deleting email'')], w2)
              | (Inr ok, w2) \<Rightarrow>
                  (case imap_expunge w2 of
                     (Inl err, w3) \<Rightarrow>
                       (ev @ [Imap (OpenBox ''Trash'' False), Imap (SeqAddFlags ident Deleted),
                              Respond 200 (Message ''Email deleted''), Imap Expunge,
                              LogError, Respond 500 (Message ''Error deleting email'')], w3)
                   | (Inr ok', w3) \<Rightarrow>
                       (ev @ [Imap (OpenBox ''Trash'' False), Imap (SeqAddFlags ident Deleted),
                              Respond 200 (Message ''Email deleted''), Imap Expunge], w3))))"

subsection \<open>GET /get-emails\<close>

record query =
  q_folder :: "string option"
  q_page :: "string option"
  q_perPage :: "string option"

definition requested_folder :: "query \<Rightarrow> string" where
  \<comment> \<open>\<open>req.query.folder || "INBOX"\<close>\<close>
  "requested_folder q =
     (case q_folder q of None \<Rightarrow> ''INBOX'' | Some f \<Rightarrow> if f = [] then ''INBOX'' else f)"

definition requested_page :: "query \<Rightarrow> int" where
  \<comment> \<open>\<open>parseInt(req.query.page) || 1\<close>\<close>
  "requested_page q = or_default (parseInt (q_page q)) 1"

definition requested_pageSize :: "query \<Rightarrow> int" where
  \<comment> \<open>\<open>parseInt(req.query.perPage) || 10\<close>\<close>
  "requested_pageSize q = or_default (parseInt (q_perPage q)) 10"

definition resolveFolder :: "string \<Rightarrow> string list \<Rightarrow> string option" where
  \<comment> \<open>\<open>Object.keys(boxes).find((key) => key.toLowerCase().includes(folder.toLowerCase()))\<close>\<close>
  "resolveFolder folder keys =
     find (\<lambda>key. includes_js (toLowerCase key) (toLowerCase folder)) keys"

definition page_ids :: "nat list \<Rightarrow> int \<Rightarrow> int \<Rightarrow> nat list" where
  \<comment> \<open>the identifiers to fetch: \<open>sorted.slice((page - 1) * pageSize, (page - 1) * pageSize + pageSize)\<close>\<close>
  "page_ids results pg sz =
     (let sorted = sort_desc results
      in slice sorted ((pg - 1) * sz) ((pg - 1) * sz + sz))"

definition to_email :: "world \<Rightarrow> nat \<times> message \<Rightarrow> email" where
  \<comment> \<open>the record built from one fetched message: its sequence number, the seen flag of
      its attributes and the parsed body\<close>
  "to_email w sm =
     (let parsed = simpleParser w (body (snd sm))
      in \<lparr>email_from = or_NA (mail_from parsed),
          email_subject = or_NA (mail_subject parsed),
          email_date = (case mail_date parsed of None \<Rightarrow> clock w | Some d \<Rightarrow> d),
          email_text = or_NA (mail_text parsed),
          email_html = or_NA (mail_textAsHtml parsed),
          email_to = or_NA (mail_to parsed),
          email_id = fst sm,
          email_seen = (Seen \<in> set (flags (snd sm)))\<rparr>)"

definition list_messages :: "query \<Rightarrow> string \<Rightarrow> world \<Rightarrow> event list \<times> world" where
  \<comment> \<open>the callback of \<open>openBox\<close>: search, sort, slice, fetch and answer\<close>
  "list_messages q box w =
     (let pg = requested_page q;
          sz = requested_pageSize q
      in case imap_search w of
           Inl err \<Rightarrow> ([Imap Search, LogError, Respond 500 (Message ''Error fetching emails'')], w)
         | Inr results \<Rightarrow>
             let total = length results;
                 pages = Math_ceil_div total sz;
                 sliced = page_ids results pg sz
             in (case imap_fetch sliced fetchOptions w of
                   (Thrown, w') \<Rightarrow>
                     ([Imap Search, Imap (Fetch sliced fetchOptions), LogError,
                       Respond 500 (Message ''Error fetching emails'')], w')
                 | (ErrorEvent, w') \<Rightarrow>
                     ([Imap Search, Imap (Fetch sliced fetchOptions), Uncaught], w')
                 | (Delivered messages, w') \<Rightarrow>
                     ([Imap Search, Imap (Fetch sliced fetchOptions),
                       Respond 200 (Page \<lparr>emails = map (to_email w') messages, page = pg,
                                           pageSize = sz, totalPages = pages,
                                           totalMessages = total\<rparr>)], w')))"

definition get_emails :: "query \<Rightarrow> world \<Rightarrow> event list \<times> world" where
  "get_emails q w0 =
     (let folder = requested_folder q;
          (ev, w) = getImap w0
      in case imap_getBoxes w of
           Inl err \<Rightarrow>
             (ev @ [Imap GetBoxes, LogError, Respond 500 (Message ''Error fetching mailboxes'')], w)
         | Inr boxes \<Rightarrow>
             (case resolveFolder folder boxes of
                None \<Rightarrow> (ev @ [Imap GetBoxes, Respond 404 (Message ''Folder not found'')], w)
              | Some found \<Rightarrow>
                  if found = [] then
                    (ev @ [Imap GetBoxes, Respond 404 (Message ''Folder not found'')], w)
                  else
                    let w1 = w\<lparr>selectedFolder := found\<rparr>
                    in (case imap_openBox found True w1 of
                          (Inl err, w2) \<Rightarrow>
                            (ev @ [Imap GetBoxes, Imap (OpenBox found True), LogError,
                                   Respond 500 (Message ''Error opening mailbox'')], w2)
                        | (Inr box, w2) \<Rightarrow>
                            let (evs, w3) = list_messages q found w2
                            in (ev @ [Imap GetBoxes, Imap (OpenBox found True)] @ evs, w3))))"

definition status_codes :: "event list \<Rightarrow> nat list" where
  \<comment> \<open>the status codes written to the response, in order\<close>
  "status_codes evs = concat (map (\<lambda>e. case e of Respond code b \<Rightarrow> [code] | _ \<Rightarrow> []) evs)"

definition seen_at :: "world \<Rightarrow> string \<Rightarrow> nat \<Rightarrow> bool" where
  \<comment> \<open>whether the message with this sequence number of the mailbox carries the seen flag\<close>
  "seen_at w name seqno = (Seen \<in> set (flags (box_messages w name ! (seqno - 1))))"


definition listed_ids :: "event list \<Rightarrow> nat list" where
  \<comment> \<open>the \<open>id\<close>s of the emails of the page results written to the response, in order\<close>
  "listed_ids evs =
     concat (map (\<lambda>e. case e of Respond code (Page r) \<Rightarrow> map email_id (emails r) | _ \<Rightarrow> []) evs)"

section \<open>Example worlds\<close>

definition example_mail :: parsed_mail where
  "example_mail =
     \<lparr>mail_from = Some ''alice@example.org'', mail_to = Some ''bob@localhost'',
      mail_subject = Some ''Hello'', mail_date = Some ''Mon Jan 01 2024'',
      mail_text = Some ''hi'', mail_textAsHtml = Some ''<p>hi</p>'',
      mail_messageId = Some ''<1@example.org>''\<rparr>"

definition quiet_world :: "message list \<Rightarrow> world" where
  \<comment> \<open>a server with the mailboxes INBOX (holding the given messages), Sent Items, Sent and
      Trash (holding one message) that refuses nothing and delivers fetched messages in
      mailbox order\<close>
  "quiet_world inbox =
     \<lparr>imap_state = Authenticated,
      mailboxes = [(''INBOX'', inbox), (''Sent Items'', []), (''Sent'', []),
                   (''Trash'', [\<lparr>uid = 1, flags = [], body = ''old''\<rparr>])],
      selected = None,
      children = [],
      rejects = (\<lambda>c. False),
      delivery = (\<lambda>ms. ms),
      simpleParser = (\<lambda>raw. example_mail),
      smtp_rejects = (\<lambda>m. False),
      clock = ''Tue Jan 02 2024'',
      selectedFolder = ''INBOX''\<rparr>"

definition three_messages :: "message list" where
  "three_messages =
     [\<lparr>uid = 11, flags = [Seen], body = ''first''\<rparr>,
      \<lparr>uid = 12, flags = [], body = ''second''\<rparr>,
      \<lparr>uid = 15, flags = [], body = ''third''\<rparr>]"



definition first_page :: query where
  "first_page = \<lparr>q_folder = Some ''INBOX'', q_page = Some ''1'', q_perPage = Some ''10''\<rparr>"

section \<open>Facts about the primitives\<close>

lemma includes_js_sublist: "includes_js hay needle \<longleftrightarrow> sublist needle hay"
  by (induction hay) (auto simp: sublist_Cons_right)

lemma find_split:
  "find P xs = Some k \<Longrightarrow> \<exists>pre post. xs = pre @ k # post \<and> P k \<and> (\<forall>x\<in>set pre. \<not> P x)"
proof (induction xs)
  case Nil
  then show ?case by simp
next
  case (Cons x xs)
  show ?case
  proof (cases "P x")
    case True
    with Cons.prems have "x = k" by simp
    with True have "x # xs = [] @ k # xs \<and> P k \<and> (\<forall>y\<in>set []. \<not> P y)" by simp
    then show ?thesis by blast
  next
    case False
    with Cons obtain pre post where "xs = pre @ k # post" "P k" "\<forall>y\<in>set pre. \<not> P y" by auto
    with False have "x # xs = (x # pre) @ k # post \<and> P k \<and> (\<forall>y\<in>set (x # pre). \<not> P y)"
      by simp
    then show ?thesis by blast
  qed
qed



lemma take_min_length: "take (min n (length ys)) ys = take n ys"
  by (simp add: min_def)

lemma slice_nonneg:
  assumes "0 \<le> a" "0 \<le> s"
  shows "slice xs a (a + s) = take (nat s) (drop (nat a) xs)"
proof (cases "a \<le> int (length xs)")
  case True
  let ?ys = "drop (nat a) xs"
  have "nat (min (a + s) (int (length xs)) - a) = min (nat s) (length ?ys)"
    using assms True by (simp add: min_def) linarith
  then have "slice xs a (a + s) = take (min (nat s) (length ?ys)) ?ys"
    using assms True by (simp add: slice_def Let_def min_absorb1)
  then show ?thesis by (simp only: take_min_length)
next
  case False
  then show ?thesis using assms by (simp add: slice_def Let_def min_def)
qed


section \<open>Facts about the collaborators and the handlers\<close>

lemma getImap_noop: "getImap w = ([], w)"
  by (cases "imap_state w") (simp_all add: getImap_def)

lemma replace_box_same:
  "replace_box name (case map_of bs name of None \<Rightarrow> [] | Some ms \<Rightarrow> ms) bs = bs"
  by (induction bs) auto

lemma set_box_same: "set_box name (box_messages w name) w = w"
  by (simp add: set_box_def box_messages_def replace_box_same)

lemma map_of_replace_box:
  "name \<in> set (map fst bs) \<Longrightarrow> map_of (replace_box name ms bs) name = Some ms"
  by (induction bs) force+

lemma fetch_fetchOptions_world: "imap_fetch ids fetchOptions w = (r, w') \<Longrightarrow> w' = w"
  by (auto simp: imap_fetch_def fetchOptions_def mark_fetched_def set_box_same Let_def
      split: option.splits prod.splits if_splits)

lemma list_messages_world: "list_messages q box w = (evs, w') \<Longrightarrow> w' = w"
  by (auto simp: list_messages_def Let_def split: sum.splits prod.splits fetch_outcome.splits
      dest: fetch_fetchOptions_world)

lemma get_emails_mailboxes: "mailboxes (snd (get_emails q w)) = mailboxes w"
  by (auto simp: get_emails_def getImap_noop Let_def imap_openBox_def
      split: sum.splits option.splits prod.splits if_splits dest!: list_messages_world)

lemma get_emails_calls:
  "Imap c \<in> set (fst (get_emails q w)) \<Longrightarrow>
     c = GetBoxes \<or> c = Search \<or> (\<exists>name. c = OpenBox name True)
     \<or> (\<exists>ids. c = Fetch ids fetchOptions)"
  by (auto simp: get_emails_def getImap_noop Let_def list_messages_def
      split: sum.splits option.splits prod.splits if_splits fetch_outcome.splits)

lemma get_emails_not_found:
  assumes "\<not> rejects w GetBoxes"
    and "resolveFolder (requested_folder q) (map fst (mailboxes w)) = None"
  shows "get_emails q w = ([Imap GetBoxes, Respond 404 (Message ''Folder not found'')], w)"
  using assms by (simp add: get_emails_def getImap_noop imap_getBoxes_def)

lemma three_messages_listing:
  "fst (get_emails first_page (quiet_world three_messages)) =
     [Imap GetBoxes, Imap (OpenBox ''INBOX'' True), Imap Search,
      Imap (Fetch [15, 12, 11] fetchOptions),
      Respond 200 (Page \<lparr>emails =
          [\<lparr>email_from = ''alice@example.org'', email_subject = ''Hello'',
            email_date = ''Mon Jan 01 2024'', email_text = ''hi'', email_html = ''<p>hi</p>'',
            email_to = ''bob@localhost'', email_id = 1, email_seen = True\<rparr>,
           \<lparr>email_from = ''alice@example.org'', email_subject = ''Hello'',
            email_date = ''Mon Jan 01 2024'', email_text = ''hi'', email_html = ''<p>hi</p>'',
            email_to = ''bob@localhost'', email_id = 2, email_seen = False\<rparr>,
           \<lparr>email_from = ''alice@example.org'', email_subject = ''Hello'',
            email_date = ''Mon Jan 01 2024'', email_text = ''hi'', email_html = ''<p>hi</p>'',
            email_to = ''bob@localhost'', email_id = 3, email_seen = False\<rparr>],
        page = 1, pageSize = 10, totalPages = 1, totalMessages = 3\<rparr>)]"
  by code_simp

lemma plain_reply:
  "fst (send_reply ''ok'' 1 ''bob'' (quiet_world three_messages)) =
     [Imap (OpenBox ''INBOX'' False), Imap (SeqFetch 1 fetchOptions),
      SendMail \<lparr>m_from = ''bob@localhost'', m_to = ''alice@example.org'',
                m_subject = ''Re: Hello'',
                m_html = ''ok<br/><br/>On Mon Jan 01 2024, alice@example.org wrote:<br/><br/><p>hi</p>'',
                m_inReplyTo = Some ''<1@example.org>''\<rparr>,
      Respond 200 (Message ''Reply sent''),
      Imap (Append (raw_message ''alice@example.org'' ''bob@localhost'' ''Re: Hello''
                      ''ok<br/><br/>On Mon Jan 01 2024, alice@example.org wrote:<br/><br/><p>hi</p>'')
              ''Sent'')]"
  by code_simp

lemma keys_replace_box: "map fst (replace_box name ms bs) = map fst bs"
  by (induction bs) auto

lemma box_messages_set_box:
  "name \<in> set (map fst (mailboxes w)) \<Longrightarrow> box_messages (set_box name ms w) name = ms"
  by (simp add: box_messages_def set_box_def map_of_replace_box)

lemma status_200_last:
  "200 \<in> set (status_codes (evs @ [Respond c b])) \<longleftrightarrow> 200 \<in> set (status_codes evs) \<or> c = 200"
  by (auto simp: status_codes_def)

lemma mark_as_read_ok:
  assumes "200 \<in> set (status_codes (fst (mark_as_read i w)))"
  shows "selectedFolder w \<in> set (map fst (mailboxes w)) \<and> 1 \<le> i
         \<and> i \<le> length (box_messages w (selectedFolder w))
         \<and> snd (mark_as_read i w) =
             set_box (selectedFolder w)
               ((box_messages w (selectedFolder w))
                  [i - 1 := add_flag Seen (box_messages w (selectedFolder w) ! (i - 1))])
               (w\<lparr>selected := Some (selectedFolder w, True)\<rparr>)"
  using assms
  by (auto simp: mark_as_read_def getImap_noop imap_openBox_def imap_seq_addFlags_def store_flag_def
      status_codes_def Let_def box_messages_def split: if_splits)

lemma mark_as_unread_ok:
  assumes "200 \<in> set (status_codes (fst (mark_as_unread i w)))"
  shows "selectedFolder w \<in> set (map fst (mailboxes w)) \<and> 1 \<le> i
         \<and> i \<le> length (box_messages w (selectedFolder w))
         \<and> snd (mark_as_unread i w) =
             set_box (selectedFolder w)
               ((box_messages w (selectedFolder w))
                  [i - 1 := del_flag Seen (box_messages w (selectedFolder w) ! (i - 1))])
               (w\<lparr>selected := Some (selectedFolder w, True)\<rparr>)"
  using assms
  by (auto simp: mark_as_unread_def getImap_noop imap_openBox_def imap_seq_delFlags_def store_flag_def
      status_codes_def Let_def box_messages_def split: if_splits)

lemma seen_after_read:
  assumes "200 \<in> set (status_codes (fst (mark_as_read i w)))"
  shows "seen_at (snd (mark_as_read i w)) (selectedFolder w) i"
proof -
  from mark_as_read_ok [OF assms] have k: "selectedFolder w \<in> set (map fst (mailboxes w))"
    and i: "1 \<le> i" "i \<le> length (box_messages w (selectedFolder w))"
    and e: "snd (mark_as_read i w) =
             set_box (selectedFolder w)
               ((box_messages w (selectedFolder w))
                  [i - 1 := add_flag Seen (box_messages w (selectedFolder w) ! (i - 1))])
               (w\<lparr>selected := Some (selectedFolder w, True)\<rparr>)" by simp_all
  from k have "box_messages (snd (mark_as_read i w)) (selectedFolder w) =
      (box_messages w (selectedFolder w))
                  [i - 1 := add_flag Seen (box_messages w (selectedFolder w) ! (i - 1))]"
    by (simp add: e box_messages_set_box)
  with i show ?thesis by (simp add: seen_at_def add_flag_def)
qed

lemma unseen_after_unread:
  assumes "200 \<in> set (status_codes (fst (mark_as_unread i w)))"
  shows "\<not> seen_at (snd (mark_as_unread i w)) (selectedFolder w) i"
proof -
  from mark_as_unread_ok [OF assms] have k: "selectedFolder w \<in> set (map fst (mailboxes w))"
    and i: "1 \<le> i" "i \<le> length (box_messages w (selectedFolder w))"
    and e: "snd (mark_as_unread i w) =
             set_box (selectedFolder w)
               ((box_messages w (selectedFolder w))
                  [i - 1 := del_flag Seen (box_messages w (selectedFolder w) ! (i - 1))])
               (w\<lparr>selected := Some (selectedFolder w, True)\<rparr>)" by simp_all
  from k have "box_messages (snd (mark_as_unread i w)) (selectedFolder w) =
      (box_messages w (selectedFolder w))
                  [i - 1 := del_flag Seen (box_messages w (selectedFolder w) ! (i - 1))]"
    by (simp add: e box_messages_set_box)
  with i show ?thesis by (simp add: seen_at_def del_flag_def)
qed

lemma selectedFolder_mark_as_read: "selectedFolder (snd (mark_as_read i w)) = selectedFolder w"
  by (auto simp: mark_as_read_def getImap_noop imap_openBox_def imap_seq_addFlags_def store_flag_def
      set_box_def Let_def split: if_splits option.splits prod.splits sum.splits)

lemma selectedFolder_mark_as_unread: "selectedFolder (snd (mark_as_unread i w)) = selectedFolder w"
  by (auto simp: mark_as_unread_def getImap_noop imap_openBox_def imap_seq_delFlags_def store_flag_def
      set_box_def Let_def split: if_splits option.splits prod.splits sum.splits)

lemma toLowerCase_empty: "toLowerCase s = [] \<longleftrightarrow> s = []"
  by (simp add: toLowerCase_def)

lemma requested_folder_nonempty: "requested_folder q \<noteq> []"
  by (simp add: requested_folder_def split: option.splits)

lemma resolveFolder_found:
  assumes "resolveFolder (requested_folder q) keys = Some k"
  shows "k \<in> set keys \<and> k \<noteq> []"
proof -
  from assms have "k \<in> set keys"
    and i: "includes_js (toLowerCase k) (toLowerCase (requested_folder q))"
    by (auto simp: resolveFolder_def find_Some_iff)
  moreover have "k \<noteq> []"
  proof
    assume "k = []"
    with i have "toLowerCase (requested_folder q) = []" by (simp add: toLowerCase_def)
    then show False by (simp add: toLowerCase_empty requested_folder_nonempty)
  qed
  ultimately show ?thesis by simp
qed

lemma length_requested_messages:
  fixes ms :: "message list"
  assumes "distinct (map uid ms)" and "distinct ids" and "set ids \<subseteq> set (map uid ms)"
  shows "length (requested_messages ids ms) = length ids"
proof -
  have n: "map snd (numbered ms) = ms"
    unfolding numbered_def by (rule map_snd_zip) (simp del: upt_Suc)
  have "map snd (requested_messages ids ms) = filter (\<lambda>m. uid m \<in> set ids) (map snd (numbered ms))"
    by (simp add: requested_messages_def filter_map comp_def case_prod_unfold)
  then have "length (requested_messages ids ms) = length (filter (\<lambda>m. uid m \<in> set ids) ms)"
    using n by (metis length_map)
  also have "\<dots> = length (filter (\<lambda>u. u \<in> set ids) (map uid ms))"
    by (simp add: filter_map comp_def)
  also have "\<dots> = card ({u. u \<in> set ids} \<inter> set (map uid ms))"
    using assms(1) by (rule distinct_length_filter)
  also have "{u. u \<in> set ids} \<inter> set (map uid ms) = set ids"
    using assms(3) by auto
  also have "card (set ids) = length ids"
    using assms(2) by (rule distinct_card)
  finally show ?thesis .
qed

lemma sort_desc_distinct: "distinct (sort_desc xs) = distinct xs"
  by (simp add: sort_desc_def)

lemma sort_desc_set: "set (sort_desc xs) = set xs"
  by (simp add: sort_desc_def)

lemma length_sort_desc: "length (sort_desc xs) = length xs"
  by (simp add: sort_desc_def)

lemma page_ids_valid:
  assumes "1 \<le> pg" "1 \<le> sz"
  shows "page_ids results pg sz = take (nat sz) (drop (nat ((pg - 1) * sz)) (sort_desc results))"
proof -
  from assms have "0 \<le> (pg - 1) * sz" "0 \<le> sz" by simp_all
  then show ?thesis by (simp only: page_ids_def Let_def slice_nonneg)
qed

lemma page_ids_props:
  assumes "1 \<le> pg" "1 \<le> sz"
  shows "set (page_ids results pg sz) \<subseteq> set results"
    and "distinct results \<Longrightarrow> distinct (page_ids results pg sz)"
    and "int (length (page_ids results pg sz)) \<le> sz"
    and "(pg - 1) * sz < int (length results) \<Longrightarrow> 1 \<le> length (page_ids results pg sz)"
    and "int (length results) \<le> (pg - 1) * sz \<Longrightarrow> page_ids results pg sz = []"
proof -
  note e = page_ids_valid [OF assms, of results]
  show "set (page_ids results pg sz) \<subseteq> set results"
    unfolding e using set_take_subset set_drop_subset sort_desc_set by fast
  show "distinct results \<Longrightarrow> distinct (page_ids results pg sz)"
    unfolding e by (simp add: sort_desc_distinct)
  show "int (length (page_ids results pg sz)) \<le> sz"
    unfolding e using assms by simp
  show "1 \<le> length (page_ids results pg sz)" if "(pg - 1) * sz < int (length results)"
  proof -
    from assms have "0 \<le> (pg - 1) * sz" by simp
    with that assms have "nat ((pg - 1) * sz) < length results" "1 \<le> nat sz"
      by (simp_all add: nat_less_iff)
    then show ?thesis unfolding e by (simp add: length_sort_desc)
  qed
  show "page_ids results pg sz = []" if "int (length results) \<le> (pg - 1) * sz"
  proof -
    from that have "length results \<le> nat ((pg - 1) * sz)" by linarith
    then show ?thesis unfolding e by (simp add: length_sort_desc)
  qed
qed

lemma page_in_range:
  assumes "1 \<le> (sz::int)"
  shows "(pg - 1) * sz < int n \<longleftrightarrow> pg \<le> \<lceil>real n / real_of_int sz\<rceil>"
proof -
  have "pg \<le> \<lceil>real n / real_of_int sz\<rceil> \<longleftrightarrow> pg - 1 < \<lceil>real n / real_of_int sz\<rceil>" by linarith
  also have "\<dots> \<longleftrightarrow> real_of_int (pg - 1) < real n / real_of_int sz" by (rule less_ceiling_iff)
  also have "\<dots> \<longleftrightarrow> real_of_int (pg - 1) * real_of_int sz < real n"
    using assms by (simp add: pos_less_divide_eq)
  also have "\<dots> \<longleftrightarrow> real_of_int ((pg - 1) * sz) < real_of_int (int n)" by simp
  also have "\<dots> \<longleftrightarrow> (pg - 1) * sz < int n" by (rule of_int_less_iff)
  finally show ?thesis by simp
qed

lemma to_email_world:
  "simpleParser w' = simpleParser w \<Longrightarrow> clock w' = clock w \<Longrightarrow> to_email w' = to_email w"
  by (rule ext) (simp add: to_email_def Let_def split: option.splits)

lemma list_messages_ok:
  assumes r: "\<forall>c. \<not> rejects w c"
    and s: "selected w = Some (box, True)"
    and nonempty: "page_ids (map uid (box_messages w box)) (requested_page q) (requested_pageSize q) \<noteq> []"
  shows "fst (list_messages q found w) =
     [Imap Search,
      Imap (Fetch (page_ids (map uid (box_messages w box)) (requested_page q) (requested_pageSize q)) fetchOptions),
      Respond 200 (Page \<lparr>emails = map (to_email w)
                (delivery w (requested_messages
                   (page_ids (map uid (box_messages w box)) (requested_page q) (requested_pageSize q))
                   (box_messages w box))),
          page = requested_page q, pageSize = requested_pageSize q,
          totalPages = \<lceil>real (length (box_messages w box)) / real_of_int (requested_pageSize q)\<rceil>,
          totalMessages = length (box_messages w box)\<rparr>)]"
  using assms
  by (simp add: list_messages_def imap_search_def imap_fetch_def Let_def Math_ceil_div_def
      mark_fetched_def fetchOptions_def set_box_same)

lemma list_messages_empty:
  assumes r: "\<forall>c. \<not> rejects w c"
    and s: "selected w = Some (box, True)"
    and empty: "page_ids (map uid (box_messages w box)) (requested_page q) (requested_pageSize q) = []"
  shows "fst (list_messages q found w) =
     [Imap Search, Imap (Fetch [] fetchOptions), LogError,
      Respond 500 (Message ''Error fetching emails'')]"
  using assms
  by (simp add: list_messages_def imap_search_def imap_fetch_def Let_def)

lemma get_emails_resolved:
  assumes r: "\<forall>c. \<not> rejects w c"
    and f: "resolveFolder (requested_folder q) (map fst (mailboxes w)) = Some box"
  shows "fst (get_emails q w) =
     [Imap GetBoxes, Imap (OpenBox box True)]
       @ fst (list_messages q box (w\<lparr>selectedFolder := box, selected := Some (box, True)\<rparr>))"
  using assms resolveFolder_found [OF f]
  by (simp add: get_emails_def getImap_noop imap_getBoxes_def imap_openBox_def Let_def
      split: prod.splits)

lemma on_body_send_failure:
  assumes "mail_from (simpleParser w (body msg)) = Some sender"
    and "mail_subject (simpleParser w (body msg)) = Some original"
    and "smtp_rejects w \<lparr>m_from = user @ ''@localhost'', m_to = sender,
           m_subject = reply_subject original,
           m_html = reply_text txt (simpleParser w (body msg)) sender,
           m_inReplyTo = mail_messageId (simpleParser w (body msg))\<rparr>"
  shows "on_body txt user msg w =
           ([SendMail \<lparr>m_from = user @ ''@localhost'', m_to = sender,
               m_subject = reply_subject original,
               m_html = reply_text txt (simpleParser w (body msg)) sender,
               m_inReplyTo = mail_messageId (simpleParser w (body msg))\<rparr>,
             LogError, Respond 500 (Message ''Error sending reply'')], w)"
  using assms by (simp add: on_body_def Let_def)

lemma after_send_append:
  assumes "mail_to email = Some recipient"
  shows "fst (after_send email sender subject replyText w) =
           (if rejects w (Append (raw_message sender recipient subject replyText) ''Sent'')
               \<or> ''Sent'' \<notin> set (map fst (mailboxes w))
            then [Imap (Append (raw_message sender recipient subject replyText) ''Sent''), LogError]
            else [Imap (Append (raw_message sender recipient subject replyText) ''Sent'')])"
  using assms by (simp add: after_send_def imap_append_def Let_def)

lemma delete_email_after_success:
  assumes "200 \<in> set (status_codes (fst (delete_email i w)))"
  shows "\<exists>rest. fst (delete_email i w) =
           [Imap (OpenBox ''Trash'' False), Imap (SeqAddFlags i Deleted),
            Respond 200 (Message ''Email deleted''), Imap Expunge] @ rest
         \<and> (rest = [] \<or> rest = [LogError, Respond 500 (Message ''Error deleting email'')])"
  using assms
  by (auto simp: delete_email_def getImap_noop status_codes_def Let_def
      split: prod.splits sum.splits)

lemma markSeen_fetch_sets_seen:
  "map flags (box_messages
      (snd (imap_fetch [12] (fetchOptions\<lparr>markSeen := True\<rparr>)
              (quiet_world three_messages\<lparr>selected := Some (''INBOX'', False)\<rparr>))) ''INBOX'')
     = [[Seen], [Seen], []]"
  by code_simp






lemma get_emails_opens:
  assumes g: "\<not> rejects w GetBoxes"
    and f: "resolveFolder (requested_folder q) (map fst (mailboxes w)) = Some k"
    and o: "\<not> rejects w (OpenBox k True)"
  shows "get_emails q w =
           (Imap GetBoxes # Imap (OpenBox k True)
              # fst (list_messages q k (w\<lparr>selectedFolder := k, selected := Some (k, True)\<rparr>)),
            w\<lparr>selectedFolder := k, selected := Some (k, True)\<rparr>)"
proof -
  let ?w = "w\<lparr>selectedFolder := k, selected := Some (k, True)\<rparr>"
  obtain evs w3 where l: "list_messages q k ?w = (evs, w3)" by (cases "list_messages q k ?w")
  from list_messages_world [OF l] have "w3 = ?w" .
  with l g f o resolveFolder_found [OF f] show ?thesis
    by (simp add: get_emails_def getImap_noop imap_getBoxes_def imap_openBox_def Let_def)
qed

lemma get_emails_open_refused:
  assumes g: "\<not> rejects w GetBoxes"
    and f: "resolveFolder (requested_folder q) (map fst (mailboxes w)) = Some k"
    and o: "rejects w (OpenBox k True)"
  shows "get_emails q w =
           ([Imap GetBoxes, Imap (OpenBox k True), LogError,
             Respond 500 (Message ''Error opening mailbox'')], w\<lparr>selectedFolder := k\<rparr>)"
  using assms resolveFolder_found [OF f]
  by (simp add: get_emails_def getImap_noop imap_getBoxes_def imap_openBox_def Let_def)

lemma find_first:
  "P k \<Longrightarrow> \<forall>x\<in>set pre. \<not> P x \<Longrightarrow> find P (pre @ k # post) = Some k"
  by (induction pre) auto






lemma get_emails_in_range:
  assumes r: "\<forall>c. \<not> rejects w c"
    and f: "resolveFolder (requested_folder q) (map fst (mailboxes w)) = Some box"
    and d: "distinct (map uid (box_messages w box))"
    and l: "\<forall>xs. length (delivery w xs) = length xs"
    and pg: "1 \<le> requested_page q" "isSafeInteger (requested_page q)"
    and sz: "1 \<le> requested_pageSize q" "isSafeInteger (requested_pageSize q)"
    and inside: "requested_page q
            \<le> \<lceil>real (length (box_messages w box)) / real_of_int (requested_pageSize q)\<rceil>"
  shows "\<exists>ids es.
             fst (get_emails q w) =
               [Imap GetBoxes, Imap (OpenBox box True), Imap Search, Imap (Fetch ids fetchOptions),
                Respond 200 (Page \<lparr>emails = es, page = requested_page q,
                  pageSize = requested_pageSize q,
                  totalPages = \<lceil>real (length (box_messages w box))
                                  / real_of_int (requested_pageSize q)\<rceil>,
                  totalMessages = length (box_messages w box)\<rparr>)]
             \<and> ids = page_ids (map uid (box_messages w box)) (requested_page q) (requested_pageSize q)
             \<and> es = map (to_email w) (delivery w (requested_messages ids (box_messages w box)))
             \<and> 1 \<le> length es \<and> int (length es) \<le> requested_pageSize q"
proof -
  let ?w = "w\<lparr>selectedFolder := box, selected := Some (box, True)\<rparr>"
  let ?ms = "box_messages w box"
  let ?ids = "page_ids (map uid ?ms) (requested_page q) (requested_pageSize q)"
  have ms: "box_messages ?w box = ?ms"
    by (simp add: box_messages_def)
  have r': "\<forall>c. \<not> rejects ?w c" and s': "selected ?w = Some (box, True)"
    using r by simp_all
  have em: "to_email ?w = to_email w"
    by (rule to_email_world) simp_all
  note g = get_emails_resolved [OF r f]
  note range = page_in_range [OF sz(1), of "requested_page q" "length ?ms"]
  from inside range have lt: "(requested_page q - 1) * requested_pageSize q < int (length (map uid ?ms))"
    by simp
  note p = page_ids_props [OF pg(1) sz(1), of "map uid ?ms"]
  from p(4) [OF lt] have ne: "?ids \<noteq> []" by auto
  have len: "length (requested_messages ?ids ?ms) = length ?ids"
    using d p(2) [OF d] p(1) by (rule length_requested_messages)
  have "fst (get_emails q w) =
             [Imap GetBoxes, Imap (OpenBox box True), Imap Search, Imap (Fetch ?ids fetchOptions),
              Respond 200 (Page \<lparr>emails = map (to_email w) (delivery w (requested_messages ?ids ?ms)),
                page = requested_page q,
                pageSize = requested_pageSize q,
                totalPages = \<lceil>real (length ?ms) / real_of_int (requested_pageSize q)\<rceil>,
                totalMessages = length ?ms\<rparr>)]"
    using list_messages_ok [OF r' s', of q box] ne
    by (simp add: g ms em)
  moreover have "1 \<le> length (map (to_email w) (delivery w (requested_messages ?ids ?ms)))"
    using l len p(4) [OF lt] by simp
  moreover have "int (length (map (to_email w) (delivery w (requested_messages ?ids ?ms))))
      \<le> requested_pageSize q"
    using l len p(3) by simp
  ultimately show ?thesis by blast
qed

section \<open>The claims\<close>




text \<open>
  C4 (as amended). The folder of a request is resolved among the keys of the object that
  \<open>getBoxes\<close> delivers, which are the top-level mailboxes. When the mailbox list
  arrives and no key contains the requested name as a substring, both taken in lower case,
  the handler answers 404 "Folder not found", raises nothing and leaves the world as it
  was. When a key contains it and no key before it does, the handler opens that mailbox
  read-only, makes it the selected folder and does not answer "Folder not found".
\<close>

theorem folder_resolution:
  assumes g: "\<not> rejects w GetBoxes"
  shows "((\<forall>key\<in>set (map fst (mailboxes w)).
             \<not> sublist (toLowerCase (requested_folder q)) (toLowerCase key))
          \<longrightarrow> get_emails q w = ([Imap GetBoxes, Respond 404 (Message ''Folder not found'')], w))
       \<and> (map fst (mailboxes w) = pre @ k # post
            \<and> sublist (toLowerCase (requested_folder q)) (toLowerCase k)
            \<and> (\<forall>key\<in>set pre. \<not> sublist (toLowerCase (requested_folder q)) (toLowerCase key))
          \<longrightarrow> (\<exists>evs. fst (get_emails q w) = Imap GetBoxes # Imap (OpenBox k True) # evs)
              \<and> selectedFolder (snd (get_emails q w)) = k
              \<and> Respond 404 (Message ''Folder not found'') \<notin> set (fst (get_emails q w)))"
proof -
  let ?P = "\<lambda>key. includes_js (toLowerCase key) (toLowerCase (requested_folder q))"
  have none: "get_emails q w = ([Imap GetBoxes, Respond 404 (Message ''Folder not found'')], w)"
    if "\<forall>key\<in>set (map fst (mailboxes w)).
             \<not> sublist (toLowerCase (requested_folder q)) (toLowerCase key)"
  proof -
    from that have "resolveFolder (requested_folder q) (map fst (mailboxes w)) = None"
      by (auto simp: resolveFolder_def find_None_iff includes_js_sublist)
    with g show ?thesis by (rule get_emails_not_found)
  qed
  have some: "(\<exists>evs. fst (get_emails q w) = Imap GetBoxes # Imap (OpenBox k True) # evs)
              \<and> selectedFolder (snd (get_emails q w)) = k
              \<and> Respond 404 (Message ''Folder not found'') \<notin> set (fst (get_emails q w))"
    if keys: "map fst (mailboxes w) = pre @ k # post"
      and m: "sublist (toLowerCase (requested_folder q)) (toLowerCase k)"
      and first: "\<forall>key\<in>set pre. \<not> sublist (toLowerCase (requested_folder q)) (toLowerCase key)"
  proof -
    from m first have "find ?P (pre @ k # post) = Some k"
      by (intro find_first) (simp_all add: includes_js_sublist)
    with keys have f: "resolveFolder (requested_folder q) (map fst (mailboxes w)) = Some k"
      by (simp add: resolveFolder_def)
    show ?thesis
    proof (cases "rejects w (OpenBox k True)")
      case True
      from get_emails_open_refused [OF g f True] show ?thesis by simp
    next
      case False
      from get_emails_opens [OF g f False] show ?thesis
        by (auto simp: list_messages_def Let_def split: sum.splits prod.splits fetch_outcome.splits)
    qed
  qed
  from none some show ?thesis by blast
qed

theorem folder_resolution_witness:
  "map fst (mailboxes (quiet_world [])) = [''INBOX''] @ ''Sent Items'' # [''Sent'', ''Trash'']
   \<and> sublist (toLowerCase ''sent'') (toLowerCase ''Sent Items'')
   \<and> (\<exists>evs. fst (get_emails \<lparr>q_folder = Some ''sent'', q_page = None, q_perPage = None\<rparr> (quiet_world []))
          = Imap GetBoxes # Imap (OpenBox ''Sent Items'' True) # evs)
   \<and> selectedFolder (snd (get_emails \<lparr>q_folder = Some ''sent'', q_page = None, q_perPage = None\<rparr>
          (quiet_world []))) = ''Sent Items''
   \<and> get_emails \<lparr>q_folder = Some ''Drafts'', q_page = None, q_perPage = None\<rparr> (quiet_world [])
        = ([Imap GetBoxes, Respond 404 (Message ''Folder not found'')], quiet_world [])"
proof -
  let ?w = "quiet_world []"
  let ?q = "\<lparr>q_folder = Some ''sent'', q_page = None, q_perPage = None\<rparr>"
  let ?q' = "\<lparr>q_folder = Some ''Drafts'', q_page = None, q_perPage = None\<rparr>"
  have g: "\<not> rejects ?w GetBoxes" by (simp add: quiet_world_def)
  have keys: "map fst (mailboxes ?w) = [''INBOX''] @ ''Sent Items'' # [''Sent'', ''Trash'']"
    by (simp add: quiet_world_def)
  have rf: "requested_folder ?q = ''sent''" "requested_folder ?q' = ''Drafts''"
    by (simp_all add: requested_folder_def)
  have m: "sublist (toLowerCase (requested_folder ?q)) (toLowerCase ''Sent Items'')"
    unfolding rf includes_js_sublist [symmetric] by code_simp
  have first: "\<forall>key\<in>set [''INBOX'']. \<not> sublist (toLowerCase (requested_folder ?q)) (toLowerCase key)"
    unfolding rf includes_js_sublist [symmetric] by code_simp
  have no: "\<forall>key\<in>set (map fst (mailboxes ?w)).
              \<not> sublist (toLowerCase (requested_folder ?q')) (toLowerCase key)"
    unfolding rf keys includes_js_sublist [symmetric] by code_simp
  from folder_resolution [OF g, of ?q "[''INBOX'']" "''Sent Items''" "[''Sent'', ''Trash'']"] keys m first
  have "(\<exists>evs. fst (get_emails ?q ?w) = Imap GetBoxes # Imap (OpenBox ''Sent Items'' True) # evs)
        \<and> selectedFolder (snd (get_emails ?q ?w)) = ''Sent Items''"
    by blast
  moreover from folder_resolution [OF g, of ?q' "[]" "[]" "[]"] no
  have "get_emails ?q' ?w = ([Imap GetBoxes, Respond 404 (Message ''Folder not found'')], ?w)"
    by blast
  ultimately show ?thesis using keys m unfolding rf by blast
qed

text \<open>
  C4, the claim as stated fails: the mailbox "Archive" nested below INBOX is a live
  folder whose name contains the requested name "archive", yet it is no key of the mailbox
  object, and the handler answers 404 "Folder not found".
\<close>

theorem nested_folder_not_found:
  "''Archive'' \<in> set (live_folders (quiet_world []\<lparr>children := [(''INBOX'', [''Archive''])]\<rparr>))
   \<and> includes_js (toLowerCase ''Archive'') (toLowerCase ''archive'')
   \<and> fst (get_emails \<lparr>q_folder = Some ''archive'', q_page = None, q_perPage = None\<rparr>
        (quiet_world []\<lparr>children := [(''INBOX'', [''Archive''])]\<rparr>))
      = [Imap GetBoxes, Respond 404 (Message ''Folder not found'')]"
  by code_simp

text \<open>
  C7. Listing emails leaves every message of every mailbox as it was, flags included: the
  mailboxes after the request are the mailboxes before it. The only calls the handler
  makes are \<open>getBoxes\<close>, \<open>openBox\<close> read-only, \<open>search\<close> and \<open>fetch\<close> with
  \<open>fetchOptions\<close>, whose \<open>markSeen\<close> is false.
\<close>

theorem get_emails_keeps_flags:
  "mailboxes (snd (get_emails q w)) = mailboxes w
   \<and> (\<forall>c. Imap c \<in> set (fst (get_emails q w)) \<longrightarrow>
         c = GetBoxes \<or> c = Search \<or> (\<exists>name. c = OpenBox name True)
         \<or> (\<exists>ids. c = Fetch ids fetchOptions))
   \<and> \<not> markSeen fetchOptions"
proof -
  have "\<not> markSeen fetchOptions"
    by (simp add: fetchOptions_def)
  with get_emails_mailboxes [of q w] get_emails_calls [of _ q w] show ?thesis
    by blast
qed

theorem get_emails_keeps_flags_witness:
  "Imap (Fetch [15, 12, 11] fetchOptions)
     \<in> set (fst (get_emails first_page (quiet_world three_messages)))
   \<and> mailboxes (snd (get_emails first_page (quiet_world three_messages)))
       = mailboxes (quiet_world three_messages)
   \<and> map flags (box_messages (snd (get_emails first_page (quiet_world three_messages))) ''INBOX'')
       = [[Seen], [], []]"
proof -
  have a: "Imap (Fetch [15, 12, 11] fetchOptions)
     \<in> set (fst (get_emails first_page (quiet_world three_messages)))"
    by (simp add: three_messages_listing)
  have b: "mailboxes (snd (get_emails first_page (quiet_world three_messages)))
       = mailboxes (quiet_world three_messages)"
    using get_emails_keeps_flags [of first_page "quiet_world three_messages"] by blast
  have c: "map flags (box_messages (snd (get_emails first_page (quiet_world three_messages))) ''INBOX'')
       = [[Seen], [], []]"
    by (simp add: box_messages_def b) (simp add: quiet_world_def three_messages_def)
  from a b c show ?thesis by blast
qed







text \<open>
  C5. When the Trash mailbox opens, the deleted flag is set and the expunge fails, the
  handler writes the response 200 "Email deleted", calls \<open>expunge\<close>, logs the error and
  then writes a second response, 500 "Error deleting email", to the response that is
  already sent: the failure of the expunge is not logged only.
\<close>

theorem delete_email_expunge_failure:
  "fst (delete_email 1 (quiet_world []\<lparr>rejects := (\<lambda>c. c = Expunge)\<rparr>)) =
     [Imap (OpenBox ''Trash'' False), Imap (SeqAddFlags 1 Deleted),
      Respond 200 (Message ''Email deleted''), Imap Expunge, LogError,
      Respond 500 (Message ''Error deleting email'')]"
  by code_simp

text \<open>
  C8. A reply to a message that has no \<open>To\<close> header: the reply is sent, the response 200
  "Reply sent" is written, and building the copy for the Sent mailbox raises (the
  recipient of the original message is undefined), so that nothing is appended.
\<close>

theorem send_reply_without_recipient:
  "fst (send_reply ''ok'' 1 ''bob''
         (quiet_world three_messages
            \<lparr>simpleParser := (\<lambda>raw. example_mail\<lparr>mail_to := None\<rparr>)\<rparr>)) =
     [Imap (OpenBox ''INBOX'' False), Imap (SeqFetch 1 fetchOptions),
      SendMail \<lparr>m_from = ''bob@localhost'', m_to = ''alice@example.org'',
                m_subject = ''Re: Hello'',
                m_html = ''ok<br/><br/>On Mon Jan 01 2024, alice@example.org wrote:<br/><br/><p>hi</p>'',
                m_inReplyTo = Some ''<1@example.org>''\<rparr>,
      Respond 200 (Message ''Reply sent''), Uncaught]"
  by code_simp

text \<open>
  C3. Three messages with the UIDs 11, 12 and 15 on a server that delivers fetched
  messages in mailbox order: the identifiers are requested newest first (15, 12, 11), and
  the emails of the response 200 carry the ids 1, 2, 3, oldest first.
\<close>

theorem listing_in_delivery_order:
  "listed_ids (fst (get_emails first_page (quiet_world three_messages))) = [1, 2, 3]
   \<and> status_codes (fst (get_emails first_page (quiet_world three_messages))) = [200]
   \<and> Imap (Fetch [15, 12, 11] fetchOptions)
        \<in> set (fst (get_emails first_page (quiet_world three_messages)))"
  by (simp add: three_messages_listing listed_ids_def status_codes_def)

text \<open>
  C9, the claim as stated fails: the first message of the inbox is seen; marking it read
  and then unread, both requests answered with 200, leaves it unseen.
\<close>

theorem mark_round_trip_counterexample:
  "seen_at (quiet_world three_messages) ''INBOX'' 1
   \<and> status_codes (fst (mark_as_read 1 (quiet_world three_messages))) = [200]
   \<and> status_codes (fst (mark_as_unread 1 (snd (mark_as_read 1 (quiet_world three_messages)))))
       = [200]
   \<and> \<not> seen_at (snd (mark_as_unread 1 (snd (mark_as_read 1 (quiet_world three_messages)))))
         ''INBOX'' 1"
  by code_simp

text \<open>
  C1. The empty inbox with page 1 and page size 10: the mailbox list, the opening and the
  search succeed, the slice of the identifiers is empty, the handler calls \<open>fetch\<close> with
  the empty list, which raises, and the handler logs the error and answers 500
  "Error fetching emails": no page result with an empty list of emails is written.
\<close>

theorem empty_mailbox_listing:
  "fst (get_emails first_page (quiet_world [])) =
     [Imap GetBoxes, Imap (OpenBox ''INBOX'' True), Imap Search, Imap (Fetch [] fetchOptions),
      LogError, Respond 500 (Message ''Error fetching emails'')]"
  by code_simp

text \<open>
  C9 (as amended). Marking a message read and then unread, the second request answered
  with 200, leaves the message without the seen flag; marking it unread and then read, the
  second request answered with 200, leaves it with the seen flag; both whatever the flag
  was before. So the first sequence restores the flag of a message that was unseen and the
  second that of a message that was seen, and neither restores the other one.
\<close>

theorem mark_read_unread_final_state:
  "(200 \<in> set (status_codes (fst (mark_as_unread i (snd (mark_as_read i w)))))
      \<longrightarrow> \<not> seen_at (snd (mark_as_unread i (snd (mark_as_read i w)))) (selectedFolder w) i)
   \<and> (200 \<in> set (status_codes (fst (mark_as_read i (snd (mark_as_unread i w)))))
      \<longrightarrow> seen_at (snd (mark_as_read i (snd (mark_as_unread i w)))) (selectedFolder w) i)"
  using unseen_after_unread [of i "snd (mark_as_read i w)"]
    seen_after_read [of i "snd (mark_as_unread i w)"]
  by (simp add: selectedFolder_mark_as_read selectedFolder_mark_as_unread)

theorem mark_read_unread_final_state_witness:
  "200 \<in> set (status_codes (fst (mark_as_unread 2 (snd (mark_as_read 2 (quiet_world three_messages))))))
   \<and> \<not> seen_at (quiet_world three_messages) ''INBOX'' 2
   \<and> \<not> seen_at (snd (mark_as_unread 2 (snd (mark_as_read 2 (quiet_world three_messages))))) ''INBOX'' 2
   \<and> 200 \<in> set (status_codes (fst (mark_as_read 2 (snd (mark_as_unread 2 (quiet_world three_messages))))))
   \<and> seen_at (snd (mark_as_read 2 (snd (mark_as_unread 2 (quiet_world three_messages))))) ''INBOX'' 2"
proof -
  let ?w = "quiet_world three_messages"
  have a: "200 \<in> set (status_codes (fst (mark_as_unread 2 (snd (mark_as_read 2 ?w)))))"
    by code_simp
  have b: "200 \<in> set (status_codes (fst (mark_as_read 2 (snd (mark_as_unread 2 ?w)))))"
    by code_simp
  have c: "\<not> seen_at ?w ''INBOX'' 2"
    by code_simp
  have f: "selectedFolder ?w = ''INBOX''"
    by (simp add: quiet_world_def)
  from a b c mark_read_unread_final_state [of 2 ?w] show ?thesis
    unfolding f by blast
qed

end
